theory Spec2Isabelle
  imports Main
begin

section \<open>Data model (src/index.ts, lines 18-30)\<close>

datatype Move = rock | paper | scissors

datatype Mode = mode_bot | mode_pvp

text \<open>
  \<^verbatim>\<open>interface MatchState\<close>. The field \<^verbatim>\<open>id\<close> is called \<open>id_str\<close> here because
  \<open>id\<close> is the identity function of HOL. Optional fields are options; a fid is a
  JavaScript number used as an integer identifier.
\<close>

record MatchState =
  id_str :: string
  mode :: Mode
  playerA :: int
  playerB :: "int option"
  moveA :: "Move option"
  moveB :: "Move option"
  createdAt :: nat

type_synonym Matches = "string \<rightharpoonup> MatchState"

section \<open>Move resolver (lines 37-47)\<close>

definition decideWinner :: "Move \<Rightarrow> Move \<Rightarrow> nat" where
  "decideWinner a b =
     (if a = b then 0
      else if (a = rock \<and> b = scissors) \<or> (a = paper \<and> b = rock) \<or> (a = scissors \<and> b = paper)
      then 1
      else 2)"

section \<open>Numbers in template literals\<close>

text \<open>
  A template literal \<^verbatim>\<open>${n}\<close> writes an integer in decimal, with a leading minus sign
  when it is negative. \<^verbatim>\<open>Date.now()\<close> is a natural number of milliseconds.
\<close>

definition digit_char :: "nat \<Rightarrow> char" where
  "digit_char d = ''0123456789'' ! d"

fun show_nat :: "nat \<Rightarrow> string" where
  "show_nat n =
     (if n < 10 then [digit_char n] else show_nat (n div 10) @ [digit_char (n mod 10)])"

declare show_nat.simps [simp del]

definition show_int :: "int \<Rightarrow> string" where
  "show_int i = (if i < 0 then CHR ''-'' # show_nat (nat (- i)) else show_nat (nat i))"

section \<open>Screen renderer (lines 49-72)\<close>

record ButtonSpec =
  label :: string
  action :: "string option"
  target :: "string option"

definition post_button :: "string \<Rightarrow> ButtonSpec" where
  "post_button l = \<lparr>label = l, action = None, target = None\<rparr>"

definition url_button :: "string \<Rightarrow> string \<Rightarrow> ButtonSpec" where
  "url_button l t = \<lparr>label = l, action = Some ''url'', target = Some t\<rparr>"

text \<open>The argument of \<^verbatim>\<open>frameMeta\<close>; \<open>image_url\<close> is its field \<^verbatim>\<open>image\<close>.\<close>

record Frame =
  title :: string
  image_url :: string
  buttons :: "ButtonSpec list"
  postUrl :: string

text \<open>
  The process environment after its defaults are applied: \<open>base_url\<close> is
  \<^verbatim>\<open>process.env.PUBLIC_URL || `http://localhost:${port}`\<close>, and the two wallet links are
  \<^verbatim>\<open>BASE_CONNECT_URL\<close> and \<^verbatim>\<open>ARB_CONNECT_URL\<close> or their defaults.
\<close>

record Env =
  base_url :: string
  baseLink :: string
  arbLink :: string

definition publicUrl :: "Env \<Rightarrow> string \<Rightarrow> string" where
  "publicUrl env path = base_url env @ path"

definition meta_tag :: "string \<Rightarrow> string \<Rightarrow> string" where
  "meta_tag property content =
     ''<meta property='' @ [CHR 0x22] @ property @ [CHR 0x22] @ '' content='' @ [CHR 0x22]
       @ content @ [CHR 0x22] @ '' />''"

definition button_meta :: "nat \<Rightarrow> ButtonSpec \<Rightarrow> string" where
  "button_meta idx b =
     (let i = show_nat (idx + 1);
          base = meta_tag (''fc:frame:button:'' @ i) (label b);
          act = (case action b of
                   None \<Rightarrow> []
                 | Some a \<Rightarrow> if a = [] then []
                            else meta_tag (''fc:frame:button:'' @ i @ '':action'') a);
          tgt = (case target b of
                   None \<Rightarrow> []
                 | Some t \<Rightarrow> if t = [] then []
                            else meta_tag (''fc:frame:button:'' @ i @ '':target'') t)
      in base @ act @ tgt)"

definition frameMeta :: "Frame \<Rightarrow> string" where
  "frameMeta f =
     ''<!DOCTYPE html><html><head>'' @ [CHR 0x0A, CHR 0x09]
     @ meta_tag ''fc:frame'' ''vNext'' @ [CHR 0x0A, CHR 0x09]
     @ meta_tag ''og:title'' (title f) @ [CHR 0x0A, CHR 0x09]
     @ meta_tag ''og:image'' (image_url f) @ [CHR 0x0A, CHR 0x09]
     @ concat (map (\<lambda>(idx, b). button_meta idx b) (enumerate 0 (buttons f)))
     @ [CHR 0x0A, CHR 0x09]
     @ meta_tag ''fc:frame:post_url'' (postUrl f) @ [CHR 0x0A, CHR 0x09]
     @ ''</head></html>''"

text \<open>
  What a handler sends: the HTTP status and the frame whose \<open>frameMeta\<close> rendering is the
  body (\<^verbatim>\<open>res.set("Content-Type", "text/html").send(html)\<close>, status 200 unless set).
\<close>

record Response =
  status :: nat
  frame :: Frame

definition html :: "Response \<Rightarrow> string" where
  "html r = frameMeta (frame r)"

definition send :: "Frame \<Rightarrow> Response" where
  "send f = \<lparr>status = 200, frame = f\<rparr>"

section \<open>Verified action adapter (lines 85-126)\<close>

record VerifiedAction =
  fid :: int
  buttonIndex :: int
  query :: "(string \<rightharpoonup> string) option"

text \<open>The request body as far as the handlers read it: \<^verbatim>\<open>req.body?.trustedData?.messageBytes\<close>.\<close>

record TrustedData =
  messageBytes :: "string option"

record Body =
  trustedData :: "TrustedData option"

record Request =
  body :: "Body option"

text \<open>
  The Neynar client is outside the repository. Its call \<^verbatim>\<open>validateFrameAction\<close> either
  rejects (the \<^verbatim>\<open>await\<close> throws) or resolves to a value that may be undefined, with a
  flag \<^verbatim>\<open>valid\<close> and an optional \<^verbatim>\<open>action\<close>.
\<close>

record FrameAction =
  interactor_fid :: int
  tapped_button_index :: int
  url :: string

record Validation =
  valid :: bool
  vaction :: "FrameAction option"

datatype NeynarResult = Rejects | Resolves "Validation option"

text \<open>
  Everything a request reads from outside the handlers: the Neynar call, the platform's
  \<^verbatim>\<open>new URL\<close> with \<^verbatim>\<open>URLSearchParams\<close> (\<open>None\<close> when the constructor throws), the two
  readings of \<^verbatim>\<open>Date.now()\<close> of the lobby branch, and
  \<^verbatim>\<open>Math.floor(Math.random() * choices.length)\<close> of \<^verbatim>\<open>chooseBotMove\<close>.
\<close>

record Ext =
  validateFrameAction :: "string \<Rightarrow> NeynarResult"
  searchParams :: "string \<Rightarrow> (string \<rightharpoonup> string) option"
  now_id :: nat
  now_created :: nat
  random_index :: nat

definition unauthorized :: "Env \<Rightarrow> string \<Rightarrow> Response" where
  "unauthorized env t =
     \<lparr>status = 401,
      frame = \<lparr>title = t,
               image_url = publicUrl env ''/images/error.png'',
               buttons = [post_button ''Back''],
               postUrl = publicUrl env ''/''\<rparr>\<rparr>"

definition request_messageBytes :: "Request \<Rightarrow> string option" where
  "request_messageBytes req =
     (case body req of
        None \<Rightarrow> None
      | Some b \<Rightarrow> (case trustedData b of None \<Rightarrow> None | Some t \<Rightarrow> messageBytes t))"

text \<open>\<^verbatim>\<open>!s\<close> for an optional string: undefined and the empty string are falsy.\<close>

definition falsy_str :: "string option \<Rightarrow> bool" where
  "falsy_str s = (case s of None \<Rightarrow> True | Some x \<Rightarrow> x = [])"

text \<open>\<^verbatim>\<open>!n\<close> for an optional number: undefined and 0 are falsy.\<close>

definition falsy_num :: "int option \<Rightarrow> bool" where
  "falsy_num n = (case n of None \<Rightarrow> True | Some x \<Rightarrow> x = 0)"

text \<open>
  The middleware: \<open>Inl\<close> is the response it sends itself (the handler never runs),
  \<open>Inr\<close> the verified action it passes to \<^verbatim>\<open>next()\<close>.
\<close>

definition verifyFrameAction :: "Env \<Rightarrow> Ext \<Rightarrow> Request \<Rightarrow> Response + VerifiedAction" where
  "verifyFrameAction env ext req =
     (if falsy_str (request_messageBytes req) then Inl (unauthorized env ''Missing messageBytes'')
      else
        (case validateFrameAction ext (the (request_messageBytes req)) of
           Rejects \<Rightarrow> Inl (unauthorized env ''Verification error'')
         | Resolves None \<Rightarrow> Inl (unauthorized env ''Invalid signature'')
         | Resolves (Some v) \<Rightarrow>
             (if valid v then
                (case vaction v of
                   None \<Rightarrow> Inl (unauthorized env ''Invalid signature'')
                 | Some a \<Rightarrow>
                     (case searchParams ext (url a) of
                        None \<Rightarrow> Inl (unauthorized env ''Verification error'')
                      | Some q \<Rightarrow>
                          Inr \<lparr>fid = interactor_fid a,
                               buttonIndex = tapped_button_index a,
                               query = Some q\<rparr>))
              else Inl (unauthorized env ''Invalid signature''))))"

section \<open>Handlers (lines 128-344)\<close>

definition home_frame :: "Env \<Rightarrow> Frame" where
  "home_frame env =
     \<lparr>title = ''Rock Paper Scissors'',
      image_url = publicUrl env ''/images/start.png'',
      buttons = [post_button ''Play Bot'', post_button ''Create PvP'',
                 post_button ''How to Play'', post_button ''Connect Wallet''],
      postUrl = publicUrl env ''/action''\<rparr>"

text \<open>\<^verbatim>\<open>app.get("/")\<close>\<close>

definition get_root :: "Env \<Rightarrow> Response" where
  "get_root env = send (home_frame env)"

text \<open>The lobby branch builds \<^verbatim>\<open>`${Date.now()}-${fid}`\<close>.\<close>

definition new_matchId :: "nat \<Rightarrow> int \<Rightarrow> string" where
  "new_matchId now f = show_nat now @ ''-'' @ show_int f"

definition new_match :: "string \<Rightarrow> int \<Rightarrow> nat \<Rightarrow> MatchState" where
  "new_match matchId f now =
     \<lparr>id_str = matchId, mode = mode_pvp, playerA = f, playerB = None,
      moveA = None, moveB = None, createdAt = now\<rparr>"

text \<open>\<^verbatim>\<open>app.post("/action")\<close> after the middleware\<close>

definition action_handler ::
  "Env \<Rightarrow> Ext \<Rightarrow> VerifiedAction \<Rightarrow> Matches \<Rightarrow> Response \<times> Matches" where
  "action_handler env ext va matches =
     (if buttonIndex va = 1 then
        (send \<lparr>title = ''Play Bot - Choose'',
               image_url = publicUrl env ''/images/choose.png'',
               buttons = [post_button ''Rock'', post_button ''Paper'',
                          post_button ''Scissors'', post_button ''Back''],
               postUrl = publicUrl env ''/bot''\<rparr>, matches)
      else if buttonIndex va = 2 then
        (let matchId = new_matchId (now_id ext) (fid va)
         in (send \<lparr>title = ''PvP Lobby Created'',
                    image_url = publicUrl env ''/images/lobby.png'',
                    buttons = [post_button ''Share'', post_button ''Cancel'',
                               post_button ''Connect Wallet'', post_button ''Back''],
                    postUrl = publicUrl env (''/pvp?matchId='' @ matchId)\<rparr>,
             matches(matchId \<mapsto> new_match matchId (fid va) (now_created ext))))
      else if buttonIndex va = 3 then
        (send \<lparr>title = ''How to Play'',
               image_url = publicUrl env ''/images/howto.png'',
               buttons = [post_button ''Play Bot'', post_button ''Create PvP'',
                          post_button ''Back''],
               postUrl = publicUrl env ''/action''\<rparr>, matches)
      else if buttonIndex va = 4 then
        (send \<lparr>title = ''Connect Wallet'',
               image_url = publicUrl env ''/images/connect.png'',
               buttons = [url_button ''Base'' (baseLink env),
                          url_button ''Arbitrum'' (arbLink env), post_button ''Back''],
               postUrl = publicUrl env ''/connect''\<rparr>, matches)
      else (send (home_frame env), matches))"

definition moveMap :: "int \<Rightarrow> Move option" where
  "moveMap i =
     (if i = 1 then Some rock else if i = 2 then Some paper
      else if i = 3 then Some scissors else None)"

definition move_name :: "Move \<Rightarrow> string" where
  "move_name m = (case m of rock \<Rightarrow> ''rock'' | paper \<Rightarrow> ''paper'' | scissors \<Rightarrow> ''scissors'')"

text \<open>\<^verbatim>\<open>chooseBotMove\<close>, given the index it draws (0, 1 or 2)\<close>

definition chooseBotMove :: "nat \<Rightarrow> Move" where
  "chooseBotMove k = [rock, paper, scissors] ! k"

text \<open>\<^verbatim>\<open>app.post("/bot")\<close> after the middleware; it never touches the store\<close>

definition bot_handler :: "Env \<Rightarrow> Ext \<Rightarrow> VerifiedAction \<Rightarrow> Response" where
  "bot_handler env ext va =
     (case moveMap (buttonIndex va) of
        None \<Rightarrow>
          send \<lparr>title = ''Choose a move'',
                image_url = publicUrl env ''/images/choose.png'',
                buttons = [post_button ''Rock'', post_button ''Paper'',
                           post_button ''Scissors'', post_button ''Back''],
                postUrl = publicUrl env ''/bot''\<rparr>
      | Some playerMove \<Rightarrow>
          (let botMove = chooseBotMove (random_index ext);
               result = decideWinner playerMove botMove;
               outcomeTitle = (if result = 0 then ''Draw!''
                               else if result = 1 then ''You Win!'' else ''Bot Wins!'')
           in send \<lparr>title = ''Bot chose '' @ move_name botMove @ ''. '' @ outcomeTitle,
                     image_url = publicUrl env ''/images/result.png'',
                     buttons = [post_button ''Play Again'', post_button ''Home'',
                                post_button ''Connect Wallet''],
                     postUrl = publicUrl env ''/action''\<rparr>))"

text \<open>Lines 273-281: the screen for a missing or unknown matchId.\<close>

definition not_found :: "Env \<Rightarrow> Response" where
  "not_found env =
     send \<lparr>title = ''PvP Match Not Found'',
           image_url = publicUrl env ''/images/error.png'',
           buttons = [post_button ''Home''],
           postUrl = publicUrl env ''/action''\<rparr>"

text \<open>Lines 284-286: \<^verbatim>\<open>if (!match.playerB && fid !== match.playerA) match.playerB = fid\<close>.\<close>

definition bind_opponent :: "int \<Rightarrow> MatchState \<Rightarrow> MatchState" where
  "bind_opponent f match =
     (if falsy_num (playerB match) \<and> f \<noteq> playerA match
      then match\<lparr>playerB := Some f\<rparr> else match)"

text \<open>
  Lines 289-294: both assignments are unguarded, and the second test reads the record
  that the first assignment has just updated.
\<close>

definition record_move :: "int \<Rightarrow> int \<Rightarrow> MatchState \<Rightarrow> MatchState" where
  "record_move f i match =
     (if 1 \<le> i \<and> i \<le> 3 then
        (let mv = moveMap i;
             match1 = (if f = playerA match then match\<lparr>moveA := mv\<rparr> else match)
         in if Some f = playerB match1 then match1\<lparr>moveB := mv\<rparr> else match1)
      else match)"

text \<open>Line 296: \<^verbatim>\<open>!match.playerB || !match.moveA || !match.moveB\<close>; a move is a non-empty string.\<close>

definition still_waiting :: "MatchState \<Rightarrow> bool" where
  "still_waiting match =
     (falsy_num (playerB match) \<or> moveA match = None \<or> moveB match = None)"

definition waiting_frame :: "Env \<Rightarrow> string \<Rightarrow> MatchState \<Rightarrow> Frame" where
  "waiting_frame env matchId match =
     \<lparr>title = (if falsy_num (playerB match) then ''Waiting for opponent''
               else ''Waiting for both moves''),
      image_url = publicUrl env ''/images/lobby.png'',
      buttons = [post_button ''Rock'', post_button ''Paper'',
                 post_button ''Scissors'', post_button ''Cancel''],
      postUrl = publicUrl env (''/pvp?matchId='' @ matchId)\<rparr>"

text \<open>Lines 311-314, reached only when the opponent and both moves are present.\<close>

definition result_title :: "MatchState \<Rightarrow> string" where
  "result_title match =
     (let result = decideWinner (the (moveA match)) (the (moveB match));
          title1 = (if result = 1 then ''Player '' @ show_int (playerA match) @ '' wins!''
                    else ''Draw!'')
      in if result = 2 then ''Player '' @ show_int (the (playerB match)) @ '' wins!''
         else title1)"

definition result_frame :: "Env \<Rightarrow> MatchState \<Rightarrow> Frame" where
  "result_frame env match =
     \<lparr>title = result_title match,
      image_url = publicUrl env ''/images/result.png'',
      buttons = [post_button ''Rematch'', post_button ''Home'',
                 post_button ''Connect Wallet''],
      postUrl = publicUrl env ''/action''\<rparr>"

definition query_matchId :: "VerifiedAction \<Rightarrow> string option" where
  "query_matchId va = (case query va of None \<Rightarrow> None | Some q \<Rightarrow> q ''matchId'')"

text \<open>
  \<^verbatim>\<open>app.post("/pvp")\<close> after the middleware. The handler mutates the record held by the
  map, so the updated record is written back under its key; \<^verbatim>\<open>matches.delete\<close> removes it.
\<close>

definition pvp_handler :: "Env \<Rightarrow> VerifiedAction \<Rightarrow> Matches \<Rightarrow> Response \<times> Matches" where
  "pvp_handler env va matches =
     (if falsy_str (query_matchId va) \<or> matches (the (query_matchId va)) = None
      then (not_found env, matches)
      else
        (let matchId = the (query_matchId va);
             match = record_move (fid va) (buttonIndex va)
                       (bind_opponent (fid va) (the (matches matchId)))
         in if still_waiting match
            then (send (waiting_frame env matchId match), matches(matchId \<mapsto> match))
            else (send (result_frame env match), matches(matchId := None))))"

text \<open>\<^verbatim>\<open>app.post("/connect")\<close> after the middleware\<close>

definition connect_handler :: "Env \<Rightarrow> Response" where
  "connect_handler env =
     send \<lparr>title = ''Connect Wallet'',
           image_url = publicUrl env ''/images/connect.png'',
           buttons = [url_button ''Base'' (baseLink env),
                      url_button ''Arbitrum'' (arbLink env), post_button ''Back''],
           postUrl = publicUrl env ''/action''\<rparr>"

text \<open>
  The four POST routes, each behind the middleware: when verification answers, the
  handler does not run and the store is the one the request found.
\<close>

datatype Route = Action | Bot | Pvp | Connect

definition post :: "Env \<Rightarrow> Ext \<Rightarrow> Route \<Rightarrow> Request \<Rightarrow> Matches \<Rightarrow> Response \<times> Matches" where
  "post env ext route req matches =
     (case verifyFrameAction env ext req of
        Inl r \<Rightarrow> (r, matches)
      | Inr va \<Rightarrow>
          (case route of
             Action \<Rightarrow> action_handler env ext va matches
           | Bot \<Rightarrow> (bot_handler env ext va, matches)
           | Pvp \<Rightarrow> pvp_handler env va matches
           | Connect \<Rightarrow> (connect_handler env, matches)))"

section \<open>Sequences of callbacks and concrete inputs\<close>

text \<open>
  A verified callback: what the request reads from outside, the route it arrived on and
  the verified action the middleware passed on. \<open>dispatch\<close> runs the handler of the route.
\<close>

type_synonym Callback = "Ext \<times> Route \<times> VerifiedAction"

definition dispatch :: "Env \<Rightarrow> Callback \<Rightarrow> Matches \<Rightarrow> Response \<times> Matches" where
  "dispatch env cb matches =
     (case cb of (ext, route, va) \<Rightarrow>
        (case route of
           Action \<Rightarrow> action_handler env ext va matches
         | Bot \<Rightarrow> (bot_handler env ext va, matches)
         | Pvp \<Rightarrow> pvp_handler env va matches
         | Connect \<Rightarrow> (connect_handler env, matches)))"

text \<open>A sequence of verified callbacks on any of the routes, handled one after the other.\<close>

fun run :: "Env \<Rightarrow> Callback list \<Rightarrow> Matches \<Rightarrow> Response list \<times> Matches" where
  "run env [] matches = ([], matches)"
| "run env (cb # cbs) matches =
     (fst (dispatch env cb matches) # fst (run env cbs (snd (dispatch env cb matches))),
      snd (run env cbs (snd (dispatch env cb matches))))"

text \<open>
  The clock reading and the identity from which a callback builds a lobby id, when it is
  a lobby creation (button 2 on /action).
\<close>

definition created_by :: "Callback \<Rightarrow> (nat \<times> int) option" where
  "created_by cb =
     (case cb of (ext, route, va) \<Rightarrow>
        if route = Action \<and> buttonIndex va = 2 then Some (now_id ext, fid va) else None)"

text \<open>
  What every store built by the handlers satisfies: no record is kept under the empty id,
  and a record with an opponent move has an opponent.
\<close>

definition well_formed :: "Matches \<Rightarrow> bool" where
  "well_formed matches =
     (\<forall>k m. matches k = Some m \<longrightarrow> k \<noteq> [] \<and> (moveB m \<noteq> None \<longrightarrow> playerB m \<noteq> None))"

text \<open>A sequence of verified /action callbacks, each with its own clock readings.\<close>

fun action_run :: "Env \<Rightarrow> (Ext \<times> VerifiedAction) list \<Rightarrow> Matches \<Rightarrow> Matches" where
  "action_run env [] matches = matches"
| "action_run env ((ext, va) # rest) matches =
     action_run env rest (snd (action_handler env ext va matches))"

text \<open>The id under which a lobby-creation callback stores its record.\<close>

definition lobby_key :: "Ext \<times> VerifiedAction \<Rightarrow> string" where
  "lobby_key x = new_matchId (now_id (fst x)) (fid (snd x))"

definition example_env :: Env where
  "example_env =
     \<lparr>base_url = ''http://localhost:3000'',
      baseLink = ''https://wallet.coinbase.com/'',
      arbLink = ''https://portal.arbitrum.io/''\<rparr>"

text \<open>
  A verification service that accepts every blob as a tap of button \<open>i\<close> by identity
  \<open>f\<close>, with a clock that reads \<open>now\<close>.
\<close>

definition example_ext :: "int \<Rightarrow> int \<Rightarrow> nat \<Rightarrow> Ext" where
  "example_ext f i now =
     \<lparr>validateFrameAction =
        (\<lambda>bytes. Resolves (Some \<lparr>valid = True,
                                  vaction = Some \<lparr>interactor_fid = f,
                                                  tapped_button_index = i,
                                                  url = ''http://localhost:3000/action''\<rparr>\<rparr>)),
      searchParams = (\<lambda>u. Some Map.empty),
      now_id = now, now_created = now, random_index = 0\<rparr>"

definition signed_request :: Request where
  "signed_request = \<lparr>body = Some \<lparr>trustedData = Some \<lparr>messageBytes = Some ''0a''\<rparr>\<rparr>\<rparr>"

definition unsigned_request :: Request where
  "unsigned_request = \<lparr>body = Some \<lparr>trustedData = None\<rparr>\<rparr>"

text \<open>The verified action of identity \<open>f\<close> tapping button \<open>i\<close> on the callback of a match.\<close>

definition tap :: "int \<Rightarrow> int \<Rightarrow> string \<Rightarrow> VerifiedAction" where
  "tap f i matchId = \<lparr>fid = f, buttonIndex = i, query = Some [''matchId'' \<mapsto> matchId]\<rparr>"

text \<open>The store after identity \<open>f\<close> has created a lobby at clock reading 5.\<close>

definition lobby_of :: "int \<Rightarrow> Matches" where
  "lobby_of f =
     snd (action_handler example_env (example_ext f 2 5)
            \<lparr>fid = f, buttonIndex = 2, query = None\<rparr> Map.empty)"

text \<open>Three histories of verified callbacks used as concrete inputs.\<close>

definition joined_history :: "Callback list" where
  "joined_history =
     [(example_ext 100 2 5, Action, \<lparr>fid = 100, buttonIndex = 2, query = None\<rparr>),
      (example_ext 200 1 5, Pvp, tap 200 1 ''5-100'')]"

definition later_history :: "Callback list" where
  "later_history =
     [(example_ext 100 2 6, Action, \<lparr>fid = 100, buttonIndex = 2, query = None\<rparr>),
      (example_ext 200 1 6, Pvp, tap 200 1 ''5-100'')]"

definition other_lobby_history :: "Callback list" where
  "other_lobby_history =
     [(example_ext 7 2 1730505600000, Action, \<lparr>fid = 7, buttonIndex = 2, query = None\<rparr>)]"

definition scenario_later :: "Callback list" where
  "scenario_later =
     [(example_ext 100 2 6, Action, \<lparr>fid = 100, buttonIndex = 2, query = None\<rparr>),
      (example_ext 200 3 6, Pvp, tap 200 3 ''1730505600000-100'')]"

section \<open>Auxiliary facts\<close>

lemma show_int_100: "show_int 100 = ''100''"
  by (simp add: show_int_def show_nat.simps digit_char_def)

lemma new_matchId_nonempty: "new_matchId n f \<noteq> []"
  by (simp add: new_matchId_def)

lemma new_matchId_5_100: "new_matchId 5 100 = ''5-100''"
  by (simp add: new_matchId_def show_int_def show_nat.simps digit_char_def)

lemma new_matchId_5_1: "new_matchId 5 1 = ''5-1''"
  by (simp add: new_matchId_def show_int_def show_nat.simps digit_char_def)

lemmas pvp_step_defs =
  bind_opponent_def record_move_def still_waiting_def falsy_num_def moveMap_def

lemma query_matchId_tap: "query_matchId (tap f i matchId) = Some matchId"
  by (simp add: query_matchId_def tap_def)

lemma pvp_handler_found:
  assumes "query_matchId va = Some matchId" and "matchId \<noteq> []" and "matches matchId = Some m"
  shows "pvp_handler env va matches =
           (let match = record_move (fid va) (buttonIndex va) (bind_opponent (fid va) m)
            in if still_waiting match
               then (send (waiting_frame env matchId match), matches(matchId \<mapsto> match))
               else (send (result_frame env match), matches(matchId := None)))"
  using assms by (simp add: pvp_handler_def falsy_str_def)

lemma pvp_handler_absent:
  assumes "query_matchId va = Some matchId" and "matches matchId = None"
  shows "pvp_handler env va matches = (not_found env, matches)"
  using assms by (simp add: pvp_handler_def)

lemma lobby_of_100: "lobby_of 100 = [''5-100'' \<mapsto> new_match ''5-100'' 100 5]"
  by (simp add: lobby_of_def action_handler_def example_ext_def new_matchId_5_100 Let_def)

lemma lobby_of_1: "lobby_of 1 = [''5-1'' \<mapsto> new_match ''5-1'' 1 5]"
  by (simp add: lobby_of_def action_handler_def example_ext_def new_matchId_5_1 Let_def)

lemma tap_sel: "fid (tap f i k) = f" "buttonIndex (tap f i k) = i"
  by (simp_all add: tap_def)

lemma pvp_tap_found:
  assumes "k \<noteq> []" and "matches k = Some m"
  shows "pvp_handler env (tap f i k) matches =
           (let match = record_move f i (bind_opponent f m)
            in if still_waiting match
               then (send (waiting_frame env k match), matches(k \<mapsto> match))
               else (send (result_frame env match), matches(k := None)))"
  using pvp_handler_found [where matches = matches and env = env, OF query_matchId_tap assms]
  by (simp add: tap_sel)

lemma bind_opponent_fields:
  "playerA (bind_opponent f m) = playerA m"
  "moveA (bind_opponent f m) = moveA m"
  "moveB (bind_opponent f m) = moveB m"
  "playerB (bind_opponent f m)
     = (if falsy_num (playerB m) \<and> f \<noteq> playerA m then Some f else playerB m)"
  by (simp_all add: bind_opponent_def)

lemma record_move_fields:
  "playerA (record_move f i m) = playerA m"
  "playerB (record_move f i m) = playerB m"
  "moveA (record_move f i m)
     = (if 1 \<le> i \<and> i \<le> 3 \<and> f = playerA m then moveMap i else moveA m)"
  "moveB (record_move f i m)
     = (if 1 \<le> i \<and> i \<le> 3 \<and> Some f = playerB m then moveMap i else moveB m)"
  by (simp_all add: record_move_def Let_def)

lemma moveMap_in_range: "1 \<le> i \<Longrightarrow> i \<le> 3 \<Longrightarrow> moveMap i \<noteq> None"
  by (simp add: moveMap_def)

lemma pvp_handler_stored:
  assumes "query_matchId va = Some matchId" and "matchId \<noteq> []"
    and "matches matchId = Some m"
    and "snd (pvp_handler env va matches) matchId = Some m'"
  shows "m' = record_move (fid va) (buttonIndex va) (bind_opponent (fid va) m)"
  using assms(4) pvp_handler_found [where matches = matches and env = env, OF assms(1-3)]
  by (simp add: Let_def split: if_splits)

lemma pvp_handler_keeps_absent:
  assumes "matches k = None"
  shows "snd (pvp_handler env va matches) k = None"
proof (cases "falsy_str (query_matchId va) \<or> matches (the (query_matchId va)) = None")
  case True
  then show ?thesis using assms by (simp add: pvp_handler_def)
next
  case False
  then have "the (query_matchId va) \<noteq> k" using assms by auto
  then show ?thesis
    using False assms by (simp add: pvp_handler_def Let_def)
qed

lemma digit_char_inj:
  assumes "d < 10" and "e < 10" and "digit_char d = digit_char e"
  shows "d = e"
proof -
  have "distinct ''0123456789''" by simp
  moreover have "d < length ''0123456789''" "e < length ''0123456789''"
    using assms by simp_all
  ultimately show ?thesis
    using assms(3) unfolding digit_char_def by (simp only: nth_eq_iff_index_eq)
qed

lemma digit_char_not_minus:
  assumes "d < 10"
  shows "digit_char d \<noteq> CHR ''-''"
proof -
  have "d < length ''0123456789''" using assms by simp
  then have "''0123456789'' ! d \<in> set ''0123456789''" by (rule nth_mem)
  then show ?thesis unfolding digit_char_def by auto
qed

lemma show_nat_nonempty: "show_nat n \<noteq> []"
  by (subst show_nat.simps) simp

lemma minus_notin_show_nat: "CHR ''-'' \<notin> set (show_nat n)"
proof (induction n rule: show_nat.induct)
  case (1 n)
  show ?case
  proof (cases "n < 10")
    case True
    then show ?thesis
      using digit_char_not_minus [of n] by (subst show_nat.simps) auto
  next
    case False
    then have "n mod 10 < 10" by simp
    then show ?thesis
      using False "1.IH" digit_char_not_minus [of "n mod 10"]
      by (subst show_nat.simps) auto
  qed
qed

lemma show_nat_inj: "show_nat n = show_nat m \<Longrightarrow> n = m"
proof (induction n arbitrary: m rule: show_nat.induct)
  case (1 n)
  show ?case
  proof (cases "n < 10")
    case n: True
    show ?thesis
    proof (cases "m < 10")
      case True
      have "show_nat n = [digit_char n]" "show_nat m = [digit_char m]"
        using n True by (simp_all add: show_nat.simps)
      then show ?thesis using "1.prems" n True digit_char_inj by simp
    next
      case False
      have "show_nat n = [digit_char n]" using n by (simp add: show_nat.simps)
      moreover have "show_nat m = show_nat (m div 10) @ [digit_char (m mod 10)]"
        using False by (subst show_nat.simps) simp
      ultimately show ?thesis using "1.prems" show_nat_nonempty [of "m div 10"] by simp
    qed
  next
    case n: False
    have sn: "show_nat n = show_nat (n div 10) @ [digit_char (n mod 10)]"
      using n by (subst show_nat.simps) simp
    show ?thesis
    proof (cases "m < 10")
      case True
      have "show_nat m = [digit_char m]" using True by (simp add: show_nat.simps)
      then show ?thesis using sn "1.prems" show_nat_nonempty [of "n div 10"] by simp
    next
      case False
      have sm: "show_nat m = show_nat (m div 10) @ [digit_char (m mod 10)]"
        using False by (subst show_nat.simps) simp
      from sn sm "1.prems"
      have a: "show_nat (n div 10) = show_nat (m div 10)"
        and b: "digit_char (n mod 10) = digit_char (m mod 10)" by simp_all
      have "n div 10 = m div 10" using "1.IH" [OF n a] .
      moreover have "n mod 10 = m mod 10"
        using digit_char_inj [OF _ _ b] by simp
      ultimately show ?thesis by (metis div_mult_mod_eq)
    qed
  qed
qed

lemma show_int_inj: "show_int i = show_int j \<Longrightarrow> i = j"
proof -
  assume eq: "show_int i = show_int j"
  have hd_neg: "\<And>k. k < 0 \<Longrightarrow> hd (show_int k) = CHR ''-''"
    by (simp add: show_int_def)
  have hd_pos: "\<And>k. \<not> k < 0 \<Longrightarrow> hd (show_int k) \<noteq> CHR ''-''"
  proof -
    fix k :: int assume "\<not> k < 0"
    then have "show_int k = show_nat (nat k)" by (simp add: show_int_def)
    moreover have "hd (show_nat (nat k)) \<in> set (show_nat (nat k))"
      using show_nat_nonempty by simp
    ultimately show "hd (show_int k) \<noteq> CHR ''-''"
      using minus_notin_show_nat [of "nat k"] by auto
  qed
  show "i = j"
  proof (cases "i < 0")
    case True
    then have "j < 0" using eq hd_neg [OF True] hd_pos [of j] by auto
    then have "show_nat (nat (- i)) = show_nat (nat (- j))"
      using eq True by (simp add: show_int_def)
    then have "nat (- i) = nat (- j)" by (rule show_nat_inj)
    then show ?thesis using True \<open>j < 0\<close> by simp
  next
    case False
    then have "\<not> j < 0" using eq hd_pos [OF False] hd_neg [of j] by auto
    then have "show_nat (nat i) = show_nat (nat j)"
      using eq False by (simp add: show_int_def)
    then have "nat i = nat j" by (rule show_nat_inj)
    then show ?thesis using False \<open>\<not> j < 0\<close> by simp
  qed
qed

lemma split_at_first:
  "x \<notin> set xs \<Longrightarrow> x \<notin> set xs' \<Longrightarrow> xs @ x # ys = xs' @ x # ys'
     \<Longrightarrow> xs = xs' \<and> ys = ys'"
proof (induction xs arbitrary: xs')
  case Nil
  then show ?case by (cases xs') auto
next
  case (Cons a as)
  then show ?case by (cases xs') auto
qed

lemma new_matchId_inj:
  "new_matchId t f = new_matchId t' f' \<longleftrightarrow> t = t' \<and> f = f'"
proof
  assume a: "new_matchId t f = new_matchId t' f'"
  have "show_nat t @ CHR ''-'' # show_int f = show_nat t' @ CHR ''-'' # show_int f'"
    using a by (simp add: new_matchId_def)
  then have "show_nat t = show_nat t' \<and> show_int f = show_int f'"
    using minus_notin_show_nat [of t] minus_notin_show_nat [of t']
    by (rule split_at_first [rotated 2])
  then show "t = t' \<and> f = f'" using show_nat_inj show_int_inj by blast
qed simp


lemma action_creates:
  assumes "buttonIndex va = 2"
  shows "snd (action_handler env ext va matches)
         = matches(new_matchId (now_id ext) (fid va)
                     \<mapsto> new_match (new_matchId (now_id ext) (fid va)) (fid va) (now_created ext))"
  using assms by (simp add: action_handler_def Let_def)

lemma action_handler_other_key:
  assumes "k \<noteq> new_matchId (now_id ext) (fid va)"
  shows "snd (action_handler env ext va matches) k = matches k"
  using assms by (simp add: action_handler_def Let_def)

lemma action_run_other_key:
  assumes "k \<notin> lobby_key ` set xs"
  shows "action_run env xs matches k = matches k"
  using assms
proof (induction xs arbitrary: matches)
  case Nil
  then show ?case by simp
next
  case (Cons x xs)
  obtain ext va where x: "x = (ext, va)" by (cases x)
  have k: "k \<noteq> new_matchId (now_id ext) (fid va)" and rest: "k \<notin> lobby_key ` set xs"
    using Cons.prems x by (auto simp: lobby_key_def)
  show ?case
    using Cons.IH [OF rest] action_handler_other_key [OF k] x by simp
qed

lemma new_matchId_6_100: "new_matchId 6 100 = ''6-100''"
  by (simp add: new_matchId_def show_int_def show_nat.simps digit_char_def)

text \<open>
  The opponent slot and the two waiting titles, for an opponent that the truthiness test
  of the handler recognises (any identity but 0).
\<close>

lemma bound_opponent_kept:
  "\<not> falsy_num (playerB m) \<Longrightarrow> playerB (record_move f i (bind_opponent f m)) = playerB m"
  by (simp add: record_move_fields bind_opponent_fields)

lemma initiator_never_opponent:
  assumes "playerB m \<noteq> Some (playerA m)"
  shows "playerB (record_move f i (bind_opponent f m))
         \<noteq> Some (playerA (record_move f i (bind_opponent f m)))"
  using assms by (simp add: record_move_fields bind_opponent_fields)

lemma third_identity_no_effect:
  assumes "\<not> falsy_num (playerB m)" and "f \<noteq> playerA m" and "playerB m \<noteq> Some f"
  shows "record_move f i (bind_opponent f m) = m"
  using assms by (auto simp: record_move_def bind_opponent_def Let_def)

lemma waiting_frame_title:
  "title (waiting_frame env k m)
     = (if falsy_num (playerB m) then ''Waiting for opponent'' else ''Waiting for both moves'')"
  "postUrl (waiting_frame env k m) = publicUrl env (''/pvp?matchId='' @ k)"
  by (simp_all add: waiting_frame_def)

lemma post_verified:
  "verifyFrameAction env ext req = Inr va
   \<Longrightarrow> post env ext route req matches = dispatch env (ext, route, va) matches"
  by (simp add: post_def dispatch_def)

lemma action_handler_store:
  "snd (action_handler env ext va matches)
     = (if buttonIndex va = 2
        then matches(new_matchId (now_id ext) (fid va)
                       \<mapsto> new_match (new_matchId (now_id ext) (fid va)) (fid va) (now_created ext))
        else matches)"
  by (simp add: action_handler_def Let_def)

lemma dispatch_keeps_absent:
  assumes "matches k = None"
    and "\<forall>t f. created_by cb = Some (t, f) \<longrightarrow> new_matchId t f \<noteq> k"
  shows "snd (dispatch env cb matches) k = None"
proof -
  obtain ext route va where cb: "cb = (ext, route, va)" by (cases cb)
  show ?thesis
  proof (cases route)
    case Action
    then show ?thesis
      using assms cb by (auto simp: dispatch_def action_handler_store created_by_def)
  next
    case Pvp
    then show ?thesis
      using assms(1) cb pvp_handler_keeps_absent [of matches k env va]
      by (simp add: dispatch_def)
  qed (use assms(1) cb in \<open>simp_all add: dispatch_def\<close>)
qed

lemma dispatch_pvp_absent:
  assumes "matches k = None" and "query_matchId va = Some k"
  shows "fst (dispatch env (ext, Pvp, va) matches) = not_found env"
  using assms by (simp add: dispatch_def pvp_handler_absent)

lemma run_length: "length (fst (run env cbs matches)) = length cbs"
  by (induction cbs arbitrary: matches) simp_all

lemma run_keeps_absent:
  assumes "matches k = None"
    and "\<forall>cb \<in> set cbs. \<forall>t f. created_by cb = Some (t, f) \<longrightarrow> new_matchId t f \<noteq> k"
  shows "snd (run env cbs matches) k = None
         \<and> (\<forall>j < length cbs. \<forall>ext va. cbs ! j = (ext, Pvp, va) \<and> query_matchId va = Some k
               \<longrightarrow> fst (run env cbs matches) ! j = not_found env)"
  using assms
proof (induction cbs arbitrary: matches)
  case Nil
  then show ?case by simp
next
  case (Cons cb cbs)
  let ?s = "snd (dispatch env cb matches)"
  have here: "\<forall>t f. created_by cb = Some (t, f) \<longrightarrow> new_matchId t f \<noteq> k"
    and rest: "\<forall>c \<in> set cbs. \<forall>t f. created_by c = Some (t, f) \<longrightarrow> new_matchId t f \<noteq> k"
    using Cons.prems(2) by simp_all
  have s: "?s k = None" using Cons.prems(1) here by (rule dispatch_keeps_absent)
  note ih = Cons.IH [where matches = ?s, OF s rest]
  show ?case
  proof (intro conjI allI impI)
    show "snd (run env (cb # cbs) matches) k = None" using ih by simp
  next
    fix j ext va
    assume j: "j < length (cb # cbs)"
      and q: "(cb # cbs) ! j = (ext, Pvp, va) \<and> query_matchId va = Some k"
    show "fst (run env (cb # cbs) matches) ! j = not_found env"
    proof (cases j)
      case 0
      then show ?thesis
        using q dispatch_pvp_absent [where matches = matches and k = k and va = va and env = env
            and ext = ext, OF Cons.prems(1)]
        by simp
    next
      case (Suc j')
      then show ?thesis using j q ih by simp
    qed
  qed
qed

lemma well_formed_empty: "well_formed Map.empty"
  by (simp add: well_formed_def)

lemma pvp_update_keeps_opponent:
  assumes "moveB m \<noteq> None \<longrightarrow> playerB m \<noteq> None"
  shows "moveB (record_move f i (bind_opponent f m)) \<noteq> None
         \<longrightarrow> playerB (record_move f i (bind_opponent f m)) \<noteq> None"
  using assms by (auto simp: record_move_fields bind_opponent_fields split: if_splits)

lemma pvp_handler_well_formed:
  assumes "well_formed matches"
  shows "well_formed (snd (pvp_handler env va matches))"
proof (cases "falsy_str (query_matchId va) \<or> matches (the (query_matchId va)) = None")
  case True
  then show ?thesis using assms by (simp add: pvp_handler_def)
next
  case False
  then obtain k m where q: "query_matchId va = Some k" and k: "k \<noteq> []"
    and m: "matches k = Some m"
    by (auto simp: falsy_str_def split: option.splits)
  let ?m = "record_move (fid va) (buttonIndex va) (bind_opponent (fid va) m)"
  have old: "moveB m \<noteq> None \<longrightarrow> playerB m \<noteq> None"
    using assms m by (simp add: well_formed_def)
  have new: "moveB ?m \<noteq> None \<longrightarrow> playerB ?m \<noteq> None"
    using old by (rule pvp_update_keeps_opponent)
  have upd: "well_formed (matches(k \<mapsto> ?m))"
    unfolding well_formed_def
  proof (intro allI impI)
    fix k' m'
    assume a: "(matches(k \<mapsto> ?m)) k' = Some m'"
    show "k' \<noteq> [] \<and> (moveB m' \<noteq> None \<longrightarrow> playerB m' \<noteq> None)"
    proof (cases "k' = k")
      case True
      then show ?thesis using a k new by simp
    next
      case False
      then have "matches k' = Some m'" using a by simp
      then show ?thesis using assms by (simp add: well_formed_def)
    qed
  qed
  have del: "well_formed (matches(k := None))"
    unfolding well_formed_def
  proof (intro allI impI)
    fix k' m'
    assume a: "(matches(k := None)) k' = Some m'"
    then have "matches k' = Some m'" by (cases "k' = k") simp_all
    then show "k' \<noteq> [] \<and> (moveB m' \<noteq> None \<longrightarrow> playerB m' \<noteq> None)"
      using assms by (simp add: well_formed_def)
  qed
  have "snd (pvp_handler env va matches) = matches(k \<mapsto> ?m)
        \<or> snd (pvp_handler env va matches) = matches(k := None)"
    using pvp_handler_found [where matches = matches and env = env, OF q k m]
    by (simp add: Let_def)
  then show ?thesis using upd del by auto
qed

lemma dispatch_well_formed:
  assumes "well_formed matches"
  shows "well_formed (snd (dispatch env cb matches))"
proof -
  obtain ext route va where cb: "cb = (ext, route, va)" by (cases cb)
  show ?thesis
  proof (cases route)
    case Action
    have "well_formed (snd (action_handler env ext va matches))"
    proof (cases "buttonIndex va = 2")
      case True
      let ?k = "new_matchId (now_id ext) (fid va)"
      let ?n = "new_match ?k (fid va) (now_created ext)"
      have "well_formed (matches(?k \<mapsto> ?n))"
        unfolding well_formed_def
      proof (intro allI impI)
        fix k' m'
        assume a: "(matches(?k \<mapsto> ?n)) k' = Some m'"
        show "k' \<noteq> [] \<and> (moveB m' \<noteq> None \<longrightarrow> playerB m' \<noteq> None)"
        proof (cases "k' = ?k")
          case True
          then show ?thesis using a by (auto simp: new_matchId_nonempty new_match_def)
        next
          case False
          then have "matches k' = Some m'" using a by simp
          then show ?thesis using assms by (simp add: well_formed_def)
        qed
      qed
      then show ?thesis using True by (simp add: action_handler_store)
    next
      case False
      then show ?thesis using assms by (simp add: action_handler_store)
    qed
    then show ?thesis using Action cb by (simp add: dispatch_def)
  next
    case Pvp
    then show ?thesis
      using cb pvp_handler_well_formed [OF assms, of env va] by (simp add: dispatch_def)
  qed (use assms cb in \<open>simp_all add: dispatch_def\<close>)
qed

lemma run_well_formed:
  "well_formed matches \<Longrightarrow> well_formed (snd (run env cbs matches))"
proof (induction cbs arbitrary: matches)
  case Nil
  then show ?case by simp
next
  case (Cons cb cbs)
  then show ?case using dispatch_well_formed [of matches env cb] by simp
qed


lemma not_found_screen:
  "status (not_found env) = 200"
  "title (frame (not_found env)) = ''PvP Match Not Found''"
  "image_url (frame (not_found env)) = base_url env @ ''/images/error.png''"
  "buttons (frame (not_found env)) = [\<lparr>label = ''Home'', action = None, target = None\<rparr>]"
  "postUrl (frame (not_found env)) = base_url env @ ''/action''"
  by (simp_all add: not_found_def send_def publicUrl_def post_button_def)

lemma result_frame_title:
  assumes "moveA m = Some a" and "moveB m = Some c" and "playerB m = Some b"
  shows "title (result_frame env m)
         = (if decideWinner a c = 1 then ''Player '' @ show_int (playerA m) @ '' wins!''
            else if decideWinner a c = 2 then ''Player '' @ show_int b @ '' wins!''
            else ''Draw!'')"
  using assms by (simp add: result_frame_def result_title_def Let_def)

lemma joined_store:
  "snd (run example_env joined_history Map.empty)
   = [''5-100'' \<mapsto> \<lparr>id_str = ''5-100'', mode = mode_pvp, playerA = 100, playerB = Some 200,
                       moveA = None, moveB = Some rock, createdAt = 5\<rparr>]"
  by (simp add: joined_history_def dispatch_def action_handler_store example_ext_def
      new_matchId_5_100 pvp_tap_found new_match_def pvp_step_defs Let_def)

lemma show_nat_reading: "show_nat 1730505600000 = ''1730505600000''"
  by (simp add: show_nat.simps digit_char_def)

section \<open>Properties\<close>

text \<open>
  C4: decideWinner is a total function of the two moves; equal moves give 0 (draw); for
  distinct moves the first wins (1) exactly when, with the arguments swapped, the second
  wins (2); rock beats scissors, scissors beats paper, paper beats rock.
\<close>

theorem decideWinner_cyclic:
  "decideWinner a a = 0
   \<and> (a \<noteq> b \<longrightarrow> (decideWinner a b = 1 \<longleftrightarrow> decideWinner b a = 2))
   \<and> decideWinner a b \<in> {0, 1, 2}
   \<and> decideWinner rock scissors = 1
   \<and> decideWinner scissors paper = 1
   \<and> decideWinner paper rock = 1"
  by (cases a; cases b) (simp_all add: decideWinner_def)

theorem decideWinner_cyclic_witness:
  "rock \<noteq> paper \<and> decideWinner rock paper = 2 \<and> decideWinner paper rock = 1
   \<and> decideWinner rock rock = 0"
  using decideWinner_cyclic [of rock paper] by (simp add: decideWinner_def)

text \<open>
  C5, as the claim states it, fails in its first step: the id embedded in the callback
  target need not be fresh. Identity 100 has created a lobby at clock reading 5 and
  identity 200 has joined it; when identity 100 taps button 2 on Home and the clock reads
  5 again, the callback target carries the id 5-100, which the store already holds.
\<close>

theorem embedded_id_not_fresh:
  "snd (pvp_handler example_env (tap 200 3 ''5-100'') (lobby_of 100)) ''5-100''
     = Some \<lparr>id_str = ''5-100'', mode = mode_pvp, playerA = 100, playerB = Some 200,
             moveA = None, moveB = Some scissors, createdAt = 5\<rparr>
   \<and> postUrl (frame (fst (action_handler example_env (example_ext 100 2 5)
                            \<lparr>fid = 100, buttonIndex = 2, query = None\<rparr>
                            (snd (pvp_handler example_env (tap 200 3 ''5-100'') (lobby_of 100))))))
     = ''http://localhost:3000/pvp?matchId=5-100''"
  by (simp add: pvp_tap_found lobby_of_100 action_handler_def example_ext_def example_env_def
      new_matchId_5_100 new_match_def pvp_step_defs Let_def send_def publicUrl_def)

text \<open>
  C5, amended: the store is the one left by any sequence of verified callbacks in which
  identity 100 created no lobby at the present clock reading. Identity 100 taps button 2
  on Home: the id, the decimal clock reading followed by -100, is not in the store, the
  new record is stored under it and nothing else changes, and the callback target of the
  response is the base URL followed by /pvp?matchId= and the id. Identity 200 taps button
  1 on /pvp with that id: 200 is the opponent, its move is rock, and the screen is
  "Waiting for both moves" with the same callback target. Identity 100 taps button 2:
  the title is "Player 100 wins!" and the store is again the one before the lobby. Along
  every sequence of later verified callbacks in which identity 100 creates no lobby at
  that clock reading, the id stays absent and each tap on /pvp with that id, by any
  identity and button, gets the screen "PvP Match Not Found" with the single button
  "Home".
\<close>

theorem pvp_scenario:
  assumes reach: "matches = snd (run env before Map.empty)"
    and fresh: "\<forall>cb \<in> set before. created_by cb \<noteq> Some (now_id ext, 100)"
    and q: "qm ''matchId'' = Some (show_nat (now_id ext) @ ''-100'')"
    and later: "\<forall>cb \<in> set later. created_by cb \<noteq> Some (now_id ext, 100)"
  shows
  "let matchId = show_nat (now_id ext) @ ''-100'';
       r1 = action_handler env ext \<lparr>fid = 100, buttonIndex = 2, query = q0\<rparr> matches;
       r2 = pvp_handler env \<lparr>fid = 200, buttonIndex = 1, query = Some qm\<rparr> (snd r1);
       r3 = pvp_handler env \<lparr>fid = 100, buttonIndex = 2, query = Some qm\<rparr> (snd r2);
       rs = run env later (snd r3)
   in matches matchId = None
      \<and> status (fst r1) = 200
      \<and> postUrl (frame (fst r1)) = base_url env @ ''/pvp?matchId='' @ matchId
      \<and> snd r1 = matches(matchId \<mapsto>
            \<lparr>id_str = matchId, mode = mode_pvp, playerA = 100, playerB = None,
             moveA = None, moveB = None, createdAt = now_created ext\<rparr>)
      \<and> snd r2 = matches(matchId \<mapsto>
            \<lparr>id_str = matchId, mode = mode_pvp, playerA = 100, playerB = Some 200,
             moveA = None, moveB = Some rock, createdAt = now_created ext\<rparr>)
      \<and> status (fst r2) = 200
      \<and> title (frame (fst r2)) = ''Waiting for both moves''
      \<and> postUrl (frame (fst r2)) = base_url env @ ''/pvp?matchId='' @ matchId
      \<and> status (fst r3) = 200
      \<and> title (frame (fst r3)) = ''Player 100 wins!''
      \<and> snd r3 = matches
      \<and> snd rs matchId = None
      \<and> (\<forall>j < length later. \<forall>ext' va'.
            later ! j = (ext', Pvp, va') \<and> query_matchId va' = Some matchId
            \<longrightarrow> status (fst rs ! j) = 200
              \<and> title (frame (fst rs ! j)) = ''PvP Match Not Found''
              \<and> image_url (frame (fst rs ! j)) = base_url env @ ''/images/error.png''
              \<and> buttons (frame (fst rs ! j)) = [\<lparr>label = ''Home'', action = None, target = None\<rparr>]
              \<and> postUrl (frame (fst rs ! j)) = base_url env @ ''/action'')"
proof -
  define mid where "mid = show_nat (now_id ext) @ ''-100''"
  have mid: "new_matchId (now_id ext) 100 = mid"
    by (simp add: mid_def new_matchId_def show_int_100)
  define m1 where
    "m1 = \<lparr>id_str = mid, mode = mode_pvp, playerA = 100, playerB = None,
           moveA = None, moveB = None, createdAt = now_created ext\<rparr>"
  define m2 where
    "m2 = \<lparr>id_str = mid, mode = mode_pvp, playerA = 100, playerB = Some 200,
           moveA = None, moveB = Some rock, createdAt = now_created ext\<rparr>"
  define m3 where
    "m3 = \<lparr>id_str = mid, mode = mode_pvp, playerA = 100, playerB = Some 200,
           moveA = Some paper, moveB = Some rock, createdAt = now_created ext\<rparr>"
  define s1 where "s1 = matches(mid \<mapsto> m1)"
  define s2 where "s2 = matches(mid \<mapsto> m2)"
  have ne: "mid \<noteq> []" by (simp add: mid_def)
  have other: "\<forall>cb \<in> set before. \<forall>t f. created_by cb = Some (t, f) \<longrightarrow> new_matchId t f \<noteq> mid"
    using fresh unfolding mid [symmetric] by (auto simp: new_matchId_inj)
  have other': "\<forall>cb \<in> set later. \<forall>t f. created_by cb = Some (t, f) \<longrightarrow> new_matchId t f \<noteq> mid"
    using later unfolding mid [symmetric] by (auto simp: new_matchId_inj)
  have absent: "matches mid = None"
    unfolding reach
    using run_keeps_absent [where matches = Map.empty and k = mid and cbs = before and env = env,
        OF _ other]
    by simp
  have q200: "query_matchId \<lparr>fid = 200, buttonIndex = 1, query = Some qm\<rparr> = Some mid"
    and q100: "query_matchId \<lparr>fid = 100, buttonIndex = 2, query = Some qm\<rparr> = Some mid"
    using q by (simp_all add: query_matchId_def mid_def)
  have r1: "action_handler env ext \<lparr>fid = 100, buttonIndex = 2, query = q0\<rparr> matches
            = (send \<lparr>title = ''PvP Lobby Created'',
                    image_url = publicUrl env ''/images/lobby.png'',
                    buttons = [post_button ''Share'', post_button ''Cancel'',
                               post_button ''Connect Wallet'', post_button ''Back''],
                    postUrl = publicUrl env (''/pvp?matchId='' @ mid)\<rparr>, s1)"
    by (simp add: action_handler_def mid s1_def m1_def new_match_def Let_def)
  have r2: "pvp_handler env \<lparr>fid = 200, buttonIndex = 1, query = Some qm\<rparr> s1
            = (send (waiting_frame env mid m2), s2)"
    using pvp_handler_found [where matches = s1 and env = env and m = m1, OF q200 ne]
    by (simp add: s1_def s2_def m1_def m2_def pvp_step_defs Let_def)
  have restored: "matches(mid := None) = matches"
    using absent by (metis fun_upd_triv)
  have r3: "pvp_handler env \<lparr>fid = 100, buttonIndex = 2, query = Some qm\<rparr> s2
            = (send (result_frame env m3), matches)"
    using pvp_handler_found [where matches = s2 and env = env and m = m2, OF q100 ne] restored
    by (simp add: s2_def m2_def m3_def pvp_step_defs Let_def)
  note k = run_keeps_absent [where matches = matches and k = mid and cbs = later and env = env,
      OF absent other']
  have after: "snd (run env later matches) mid = None" using k by blast
  have scr: "\<forall>j < length later. \<forall>ext' va'.
            later ! j = (ext', Pvp, va') \<and> query_matchId va' = Some mid
            \<longrightarrow> status (fst (run env later matches) ! j) = 200
              \<and> title (frame (fst (run env later matches) ! j)) = ''PvP Match Not Found''
              \<and> image_url (frame (fst (run env later matches) ! j))
                = base_url env @ ''/images/error.png''
              \<and> buttons (frame (fst (run env later matches) ! j))
                = [\<lparr>label = ''Home'', action = None, target = None\<rparr>]
              \<and> postUrl (frame (fst (run env later matches) ! j)) = base_url env @ ''/action''"
  proof (intro allI impI)
    fix j ext' va'
    assume j: "j < length later"
      and e: "later ! j = (ext', Pvp, va') \<and> query_matchId va' = Some mid"
    have "fst (run env later matches) ! j = not_found env" using k j e by blast
    then show "status (fst (run env later matches) ! j) = 200
              \<and> title (frame (fst (run env later matches) ! j)) = ''PvP Match Not Found''
              \<and> image_url (frame (fst (run env later matches) ! j))
                = base_url env @ ''/images/error.png''
              \<and> buttons (frame (fst (run env later matches) ! j))
                = [\<lparr>label = ''Home'', action = None, target = None\<rparr>]
              \<and> postUrl (frame (fst (run env later matches) ! j)) = base_url env @ ''/action''"
      by (simp add: not_found_screen)
  qed
  have c1: "status (fst (send \<lparr>title = ''PvP Lobby Created'',
                    image_url = publicUrl env ''/images/lobby.png'',
                    buttons = [post_button ''Share'', post_button ''Cancel'',
                               post_button ''Connect Wallet'', post_button ''Back''],
                    postUrl = publicUrl env (''/pvp?matchId='' @ mid)\<rparr>, s1)) = 200"
    and c2: "postUrl (frame (fst (send \<lparr>title = ''PvP Lobby Created'',
                    image_url = publicUrl env ''/images/lobby.png'',
                    buttons = [post_button ''Share'', post_button ''Cancel'',
                               post_button ''Connect Wallet'', post_button ''Back''],
                    postUrl = publicUrl env (''/pvp?matchId='' @ mid)\<rparr>, s1)))
             = base_url env @ ''/pvp?matchId='' @ mid"
    by (simp_all add: send_def publicUrl_def)
  have c3: "s1 = matches(mid \<mapsto>
            \<lparr>id_str = mid, mode = mode_pvp, playerA = 100, playerB = None,
             moveA = None, moveB = None, createdAt = now_created ext\<rparr>)"
    and c4: "s2 = matches(mid \<mapsto>
            \<lparr>id_str = mid, mode = mode_pvp, playerA = 100, playerB = Some 200,
             moveA = None, moveB = Some rock, createdAt = now_created ext\<rparr>)"
    by (simp_all add: s1_def s2_def m1_def m2_def)
  have c5: "status (send (waiting_frame env mid m2)) = 200"
    and c6: "title (frame (send (waiting_frame env mid m2))) = ''Waiting for both moves''"
    and c7: "postUrl (frame (send (waiting_frame env mid m2)))
             = base_url env @ ''/pvp?matchId='' @ mid"
    by (simp_all add: send_def waiting_frame_def m2_def falsy_num_def publicUrl_def)
  have c8: "status (send (result_frame env m3)) = 200"
    and c9: "title (frame (send (result_frame env m3))) = ''Player 100 wins!''"
    by (simp_all add: send_def result_frame_def result_title_def m3_def decideWinner_def
        show_int_100 Let_def)
  show ?thesis
    unfolding Let_def mid_def [symmetric] r1 snd_conv fst_conv r2 r3
    using absent c1 [unfolded fst_conv] c2 [unfolded fst_conv] c3 c4 c5 c6 c7 c8 c9 after scr
    by (intro conjI) simp_all
qed

theorem pvp_scenario_witness:
  "created_by (other_lobby_history ! 0) = Some (1730505600000, 7)
   \<and> snd (run example_env other_lobby_history Map.empty) ''1730505600000-100'' = None
   \<and> postUrl (frame (fst (action_handler example_env (example_ext 100 2 1730505600000)
                            \<lparr>fid = 100, buttonIndex = 2, query = None\<rparr>
                            (snd (run example_env other_lobby_history Map.empty)))))
     = ''http://localhost:3000/pvp?matchId=1730505600000-100''
   \<and> title (frame (fst (pvp_handler example_env (tap 100 2 ''1730505600000-100'')
        (snd (pvp_handler example_env (tap 200 1 ''1730505600000-100'')
           (snd (action_handler example_env (example_ext 100 2 1730505600000)
                   \<lparr>fid = 100, buttonIndex = 2, query = None\<rparr>
                   (snd (run example_env other_lobby_history Map.empty)))))))))
     = ''Player 100 wins!''
   \<and> title (frame (fst (run example_env scenario_later
        (snd (pvp_handler example_env (tap 100 2 ''1730505600000-100'')
           (snd (pvp_handler example_env (tap 200 1 ''1730505600000-100'')
              (snd (action_handler example_env (example_ext 100 2 1730505600000)
                      \<lparr>fid = 100, buttonIndex = 2, query = None\<rparr>
                      (snd (run example_env other_lobby_history Map.empty))))))))) ! 1))
     = ''PvP Match Not Found''"
proof -
  let ?s = "snd (run example_env other_lobby_history Map.empty)"
  let ?ext = "example_ext 100 2 1730505600000"
  have c0: "created_by (other_lobby_history ! 0) = Some (1730505600000, 7)"
    by (simp add: other_lobby_history_def created_by_def example_ext_def)
  have h1: "?s = snd (run example_env other_lobby_history Map.empty)" by simp
  have h2: "\<forall>cb \<in> set other_lobby_history. created_by cb \<noteq> Some (now_id ?ext, 100)"
    by (simp add: other_lobby_history_def created_by_def example_ext_def)
  have h3: "[''matchId'' \<mapsto> ''1730505600000-100''] ''matchId''
            = Some (show_nat (now_id ?ext) @ ''-100'')"
    by (simp add: example_ext_def show_nat_reading)
  have h4: "\<forall>cb \<in> set scenario_later. created_by cb \<noteq> Some (now_id ?ext, 100)"
    by (simp add: scenario_later_def created_by_def example_ext_def)
  note r = pvp_scenario [where matches = ?s and env = example_env
      and before = other_lobby_history and ext = ?ext
      and qm = "[''matchId'' \<mapsto> ''1730505600000-100'']" and ?q0.0 = None
      and later = scenario_later, OF h1 h2 h3 h4, unfolded Let_def]
  have id: "show_nat (now_id ?ext) @ ''-100'' = ''1730505600000-100''"
    by (simp add: example_ext_def show_nat_reading)
  have fresh: "?s ''1730505600000-100'' = None"
    using r id by simp
  have url: "postUrl (frame (fst (action_handler example_env ?ext
                \<lparr>fid = 100, buttonIndex = 2, query = None\<rparr> ?s)))
             = ''http://localhost:3000/pvp?matchId=1730505600000-100''"
    using r [THEN conjunct2, THEN conjunct2, THEN conjunct1] id
    by (simp add: example_env_def)
  have win: "title (frame (fst (pvp_handler example_env (tap 100 2 ''1730505600000-100'')
        (snd (pvp_handler example_env (tap 200 1 ''1730505600000-100'')
           (snd (action_handler example_env ?ext
                   \<lparr>fid = 100, buttonIndex = 2, query = None\<rparr> ?s))))))) = ''Player 100 wins!''"
    using r [THEN conjunct2, THEN conjunct2, THEN conjunct2, THEN conjunct2, THEN conjunct2,
        THEN conjunct2, THEN conjunct2, THEN conjunct2, THEN conjunct2, THEN conjunct1]
    by (simp only: tap_def)
  have l1: "scenario_later ! 1 = (example_ext 200 3 6, Pvp, tap 200 3 ''1730505600000-100'')
            \<and> query_matchId (tap 200 3 ''1730505600000-100'')
              = Some (show_nat (now_id ?ext) @ ''-100'')"
    by (simp add: scenario_later_def query_matchId_tap id)
  have len: "1 < length scenario_later" by (simp add: scenario_later_def)
  have nf: "title (frame (fst (run example_env scenario_later
        (snd (pvp_handler example_env (tap 100 2 ''1730505600000-100'')
           (snd (pvp_handler example_env (tap 200 1 ''1730505600000-100'')
              (snd (action_handler example_env ?ext
                      \<lparr>fid = 100, buttonIndex = 2, query = None\<rparr> ?s))))))) ! 1))
     = ''PvP Match Not Found''"
    using r [THEN conjunct2, THEN conjunct2, THEN conjunct2, THEN conjunct2, THEN conjunct2,
        THEN conjunct2, THEN conjunct2, THEN conjunct2, THEN conjunct2, THEN conjunct2,
        THEN conjunct2, THEN conjunct2, rule_format, OF len l1, THEN conjunct2, THEN conjunct1]
    by (simp only: tap_def)
  show ?thesis
    using c0 fresh url win nf by (intro conjI)
qed

text \<open>
  C7: a verified action on /action whose button index is outside 1..4 gets the response of
  GET / (status 200, the Home frame with its four buttons and the /action callback target,
  hence the same document) and leaves the match store unchanged.
\<close>

theorem home_fallback:
  assumes "verifyFrameAction env ext req = Inr va"
    and "buttonIndex va < 1 \<or> 4 < buttonIndex va"
  shows "post env ext Action req matches = (get_root env, matches)
         \<and> action_handler env ext va matches = (get_root env, matches)
         \<and> status (get_root env) = 200
         \<and> frame (get_root env) = home_frame env
         \<and> html (fst (post env ext Action req matches)) = html (get_root env)
         \<and> length (buttons (home_frame env)) = 4
         \<and> postUrl (home_frame env) = publicUrl env ''/action''"
proof -
  have h: "action_handler env ext va matches = (get_root env, matches)"
    using assms(2) by (auto simp: action_handler_def get_root_def)
  have p: "post env ext Action req matches = (get_root env, matches)"
    using assms(1) h by (simp add: post_def)
  show ?thesis
    using h p by (simp add: get_root_def send_def home_frame_def)
qed

theorem home_fallback_witness:
  "verifyFrameAction example_env (example_ext 100 7 5) signed_request
     = Inr \<lparr>fid = 100, buttonIndex = 7, query = Some Map.empty\<rparr>
   \<and> post example_env (example_ext 100 7 5) Action signed_request (lobby_of 1)
     = (get_root example_env, lobby_of 1)"
proof -
  have v: "verifyFrameAction example_env (example_ext 100 7 5) signed_request
           = Inr \<lparr>fid = 100, buttonIndex = 7, query = Some Map.empty\<rparr>"
    by (simp add: verifyFrameAction_def example_ext_def signed_request_def
        request_messageBytes_def falsy_str_def)
  show ?thesis
    using v home_fallback [OF v, of "lobby_of 1"] by simp
qed

text \<open>
  C9: a POST callback whose body carries no messageBytes (absent, or the empty string,
  which the test treats alike) is answered by the middleware on every route: status 401,
  the error frame titled "Missing messageBytes" with the single button "Back"; the handler
  behind the middleware does not run and the match store is the one the request found.
\<close>

theorem missing_messageBytes:
  assumes "falsy_str (request_messageBytes req)"
  shows "post env ext route req matches = (unauthorized env ''Missing messageBytes'', matches)
         \<and> verifyFrameAction env ext req = Inl (unauthorized env ''Missing messageBytes'')
         \<and> status (unauthorized env ''Missing messageBytes'') = 401
         \<and> buttons (frame (unauthorized env ''Missing messageBytes'')) = [post_button ''Back'']
         \<and> image_url (frame (unauthorized env ''Missing messageBytes''))
           = publicUrl env ''/images/error.png''"
  using assms by (simp add: post_def verifyFrameAction_def unauthorized_def)

theorem missing_messageBytes_witness:
  "falsy_str (request_messageBytes unsigned_request)
   \<and> post example_env (example_ext 1 2 5) Action unsigned_request (lobby_of 1)
     = (unauthorized example_env ''Missing messageBytes'', lobby_of 1)
   \<and> post example_env (example_ext 1 2 5) Pvp unsigned_request (lobby_of 1)
     = (unauthorized example_env ''Missing messageBytes'', lobby_of 1)"
proof -
  have h: "falsy_str (request_messageBytes unsigned_request)"
    by (simp add: falsy_str_def request_messageBytes_def unsigned_request_def)
  show ?thesis
    using h missing_messageBytes [OF h, of example_env "example_ext 1 2 5" Action "lobby_of 1"]
      missing_messageBytes [OF h, of example_env "example_ext 1 2 5" Pvp "lobby_of 1"]
    by simp
qed

text \<open>
  C1, as the claim states it, fails: identity 100 creates a lobby and taps button 1, so its
  move is rock; its next tap, on button 2, replaces the stored move by paper.
\<close>

theorem later_tap_overwrites_move:
  "map_option moveA (snd (pvp_handler example_env (tap 100 1 ''5-100'') (lobby_of 100)) ''5-100'')
     = Some (Some rock)
   \<and> map_option moveA
        (snd (pvp_handler example_env (tap 100 2 ''5-100'')
               (snd (pvp_handler example_env (tap 100 1 ''5-100'') (lobby_of 100)))) ''5-100'')
     = Some (Some paper)"
  by (simp add: pvp_tap_found lobby_of_100 new_match_def pvp_step_defs Let_def)


text \<open>
  C1, amended: a verified tap on /pvp with a button index in 1..3 (1 rock, 2 paper,
  3 scissors) from the initiator sets the initiator's move, and one from the opponent the
  record holds sets the opponent's move, to the move of the tapped button, whether or not
  a move was recorded before: the last write wins, and the stored move is unchanged when
  the tap repeats it. A tap with an index outside 1..3 changes neither move. A tap by an
  identity other than the initiator leaves the initiator's move unchanged. The opponent's
  move is unchanged by a tap of the initiator, and by a tap of any identity other than
  the opponent the record holds when that opponent is not 0. A recorded move is never
  reset to unset. Here \<open>m\<close> is the record the callback finds and \<open>m'\<close> the record the
  store holds afterwards; every condition on identities is on \<open>m\<close>.
\<close>

theorem move_last_write_wins:
  assumes "query_matchId va = Some matchId" and "matchId \<noteq> []"
    and "matches matchId = Some m"
    and "snd (pvp_handler env va matches) matchId = Some m'"
  shows "(1 \<le> buttonIndex va \<and> buttonIndex va \<le> 3 \<and> fid va = playerA m
            \<longrightarrow> moveA m' = moveMap (buttonIndex va))
       \<and> (1 \<le> buttonIndex va \<and> buttonIndex va \<le> 3 \<and> playerB m = Some (fid va)
            \<longrightarrow> moveB m' = moveMap (buttonIndex va))
       \<and> moveMap 1 = Some rock \<and> moveMap 2 = Some paper \<and> moveMap 3 = Some scissors
       \<and> (moveA m = moveMap (buttonIndex va) \<longrightarrow> moveA m' = moveA m)
       \<and> (moveB m = moveMap (buttonIndex va) \<longrightarrow> moveB m' = moveB m)
       \<and> (fid va \<noteq> playerA m \<longrightarrow> moveA m' = moveA m)
       \<and> (fid va = playerA m \<and> playerB m \<noteq> Some (fid va) \<longrightarrow> moveB m' = moveB m)
       \<and> (playerB m \<noteq> None \<and> playerB m \<noteq> Some 0 \<and> playerB m \<noteq> Some (fid va)
            \<longrightarrow> moveB m' = moveB m)
       \<and> (buttonIndex va < 1 \<or> 3 < buttonIndex va \<longrightarrow> moveA m' = moveA m \<and> moveB m' = moveB m)
       \<and> (moveA m \<noteq> None \<longrightarrow> moveA m' \<noteq> None)
       \<and> (moveB m \<noteq> None \<longrightarrow> moveB m' \<noteq> None)"
proof -
  have m': "m' = record_move (fid va) (buttonIndex va) (bind_opponent (fid va) m)"
    using assms by (rule pvp_handler_stored)
  have a: "moveA m' = (if 1 \<le> buttonIndex va \<and> buttonIndex va \<le> 3 \<and> fid va = playerA m
                       then moveMap (buttonIndex va) else moveA m)"
    unfolding m' by (simp add: record_move_fields bind_opponent_fields)
  have b: "moveB m' = (if 1 \<le> buttonIndex va \<and> buttonIndex va \<le> 3 \<and> Some (fid va) = playerB m'
                       then moveMap (buttonIndex va) else moveB m)"
    unfolding m' by (simp add: record_move_fields bind_opponent_fields)
  have pb: "playerB m' = (if falsy_num (playerB m) \<and> fid va \<noteq> playerA m
                          then Some (fid va) else playerB m)"
    unfolding m' by (simp add: record_move_fields bind_opponent_fields)
  have r: "1 \<le> buttonIndex va \<and> buttonIndex va \<le> 3 \<Longrightarrow> moveMap (buttonIndex va) \<noteq> None"
    by (simp add: moveMap_in_range)
  have c1: "1 \<le> buttonIndex va \<and> buttonIndex va \<le> 3 \<and> fid va = playerA m
            \<longrightarrow> moveA m' = moveMap (buttonIndex va)"
    using a by simp
  have c2: "1 \<le> buttonIndex va \<and> buttonIndex va \<le> 3 \<and> playerB m = Some (fid va)
            \<longrightarrow> moveB m' = moveMap (buttonIndex va)"
    using b pb by simp
  have pins: "moveMap 1 = Some rock \<and> moveMap 2 = Some paper \<and> moveMap 3 = Some scissors"
    by (simp add: moveMap_def)
  have c3: "moveA m = moveMap (buttonIndex va) \<longrightarrow> moveA m' = moveA m"
    using a by simp
  have c4: "moveB m = moveMap (buttonIndex va) \<longrightarrow> moveB m' = moveB m"
    using b by simp
  have c5: "fid va \<noteq> playerA m \<longrightarrow> moveA m' = moveA m"
    using a by simp
  have c6: "fid va = playerA m \<and> playerB m \<noteq> Some (fid va) \<longrightarrow> moveB m' = moveB m"
    using b pb by auto
  have c7: "playerB m \<noteq> None \<and> playerB m \<noteq> Some 0 \<and> playerB m \<noteq> Some (fid va)
            \<longrightarrow> moveB m' = moveB m"
    using b pb by (auto simp: falsy_num_def split: option.splits)
  have c8: "buttonIndex va < 1 \<or> 3 < buttonIndex va \<longrightarrow> moveA m' = moveA m \<and> moveB m' = moveB m"
    using a b by auto
  have c9: "moveA m \<noteq> None \<longrightarrow> moveA m' \<noteq> None"
    using a r by (cases "1 \<le> buttonIndex va \<and> buttonIndex va \<le> 3 \<and> fid va = playerA m") simp_all
  have c10: "moveB m \<noteq> None \<longrightarrow> moveB m' \<noteq> None"
    using b r
    by (cases "1 \<le> buttonIndex va \<and> buttonIndex va \<le> 3 \<and> Some (fid va) = playerB m'") simp_all
  show ?thesis
    using c1 c2 pins c3 c4 c5 c6 c7 c8 c9 c10 by blast
qed


theorem move_last_write_wins_witness:
  "query_matchId (tap 100 2 ''5-100'') = Some ''5-100''
   \<and> [''5-100'' \<mapsto> (new_match ''5-100'' 100 5)\<lparr>moveA := Some rock\<rparr>] ''5-100''
       = Some ((new_match ''5-100'' 100 5)\<lparr>moveA := Some rock\<rparr>)
   \<and> snd (pvp_handler example_env (tap 100 2 ''5-100'')
            [''5-100'' \<mapsto> (new_match ''5-100'' 100 5)\<lparr>moveA := Some rock\<rparr>]) ''5-100''
       = Some ((new_match ''5-100'' 100 5)\<lparr>moveA := Some paper\<rparr>)
   \<and> moveA ((new_match ''5-100'' 100 5)\<lparr>moveA := Some paper\<rparr>) = moveMap 2"
proof -
  let ?m = "(new_match ''5-100'' 100 5)\<lparr>moveA := Some rock\<rparr>"
  let ?m' = "(new_match ''5-100'' 100 5)\<lparr>moveA := Some paper\<rparr>"
  have h1: "query_matchId (tap 100 2 ''5-100'') = Some ''5-100''"
    by (rule query_matchId_tap)
  have h2: "''5-100'' \<noteq> []" by simp
  have h3: "[''5-100'' \<mapsto> ?m] ''5-100'' = Some ?m" by simp
  have h4: "snd (pvp_handler example_env (tap 100 2 ''5-100'') [''5-100'' \<mapsto> ?m]) ''5-100''
            = Some ?m'"
    by (simp add: pvp_tap_found new_match_def pvp_step_defs Let_def)
  note r = move_last_write_wins [where matches = "[''5-100'' \<mapsto> ?m]" and env = example_env,
      OF h1 h2 h3 h4]
  have same: "fid (tap 100 2 ''5-100'') = playerA ?m"
    and idx: "buttonIndex (tap 100 2 ''5-100'') = 2"
    by (simp_all add: tap_sel new_match_def)
  have "moveA ?m' = moveMap (buttonIndex (tap 100 2 ''5-100''))"
    using r [THEN conjunct1] same idx by simp
  then have last: "moveA ?m' = moveMap 2" using idx by simp
  show ?thesis
    using h1 h3 h4 last by (intro conjI)
qed

text \<open>
  C3, as the claim states it, fails: the id of a resolved match can return. Identity 100
  creates a lobby at clock reading 5, identity 200 joins with rock and identity 100 plays
  paper, so the match is resolved and its id 5-100 is absent. Identity 100 then creates a
  lobby while the clock reads 5 again; the next callback that references 5-100 is answered
  with a waiting screen, not with the match-not-found screen.
\<close>

theorem recreated_id_is_found_again:
  "snd (pvp_handler example_env (tap 100 2 ''5-100'')
          (snd (pvp_handler example_env (tap 200 1 ''5-100'') (lobby_of 100)))) ''5-100'' = None
   \<and> title (frame (fst (pvp_handler example_env (tap 200 3 ''5-100'')
        (snd (action_handler example_env (example_ext 100 2 5)
                \<lparr>fid = 100, buttonIndex = 2, query = None\<rparr>
                (snd (pvp_handler example_env (tap 100 2 ''5-100'')
                   (snd (pvp_handler example_env (tap 200 1 ''5-100'') (lobby_of 100))))))))))
     = ''Waiting for both moves''"
  by (simp add: pvp_tap_found lobby_of_100 action_handler_def example_ext_def
      new_matchId_5_100 new_match_def pvp_step_defs Let_def send_def waiting_frame_def)


text \<open>
  C3, amended: the store is the one left by any sequence of verified callbacks. When a
  /pvp callback finds, once its tap is recorded, both moves present, and the opponent of
  the record is not the identity 0 before or after the tap, the handler answers with the
  result screen, whose title names the winner by the move resolver, and removes the
  record in the same transition. The id
  stays absent along every sequence of later verified callbacks, on any route, in which
  no lobby creation produces that id again; each later /pvp callback that references it
  gets the screen "PvP Match Not Found" with the single button "Home", so the match is
  not resolved a second time.
\<close>

theorem resolved_match_stays_gone:
  assumes reach: "matches = snd (run env before Map.empty)"
    and q: "query_matchId va = Some matchId"
    and m: "matches matchId = Some m"
    and a: "moveA (record_move (fid va) (buttonIndex va) (bind_opponent (fid va) m)) = Some a"
    and c: "moveB (record_move (fid va) (buttonIndex va) (bind_opponent (fid va) m)) = Some c"
    and z0: "playerB m \<noteq> Some 0"
    and z: "playerB (record_move (fid va) (buttonIndex va) (bind_opponent (fid va) m)) \<noteq> Some 0"
    and later: "\<forall>cb \<in> set later. \<forall>t f. created_by cb = Some (t, f) \<longrightarrow> new_matchId t f \<noteq> matchId"
  shows "status (fst (pvp_handler env va matches)) = 200
       \<and> (\<exists>b. playerB (record_move (fid va) (buttonIndex va) (bind_opponent (fid va) m)) = Some b
              \<and> title (frame (fst (pvp_handler env va matches)))
                = (if decideWinner a c = 1 then ''Player '' @ show_int (playerA m) @ '' wins!''
                   else if decideWinner a c = 2 then ''Player '' @ show_int b @ '' wins!''
                   else ''Draw!''))
       \<and> image_url (frame (fst (pvp_handler env va matches))) = base_url env @ ''/images/result.png''
       \<and> snd (pvp_handler env va matches) = matches(matchId := None)
       \<and> snd (run env later (snd (pvp_handler env va matches))) matchId = None
       \<and> (\<forall>j < length later. \<forall>ext' va'.
             later ! j = (ext', Pvp, va') \<and> query_matchId va' = Some matchId
             \<longrightarrow> status (fst (run env later (snd (pvp_handler env va matches))) ! j) = 200
               \<and> title (frame (fst (run env later (snd (pvp_handler env va matches))) ! j))
                 = ''PvP Match Not Found''
               \<and> image_url (frame (fst (run env later (snd (pvp_handler env va matches))) ! j))
                 = base_url env @ ''/images/error.png''
               \<and> buttons (frame (fst (run env later (snd (pvp_handler env va matches))) ! j))
                 = [\<lparr>label = ''Home'', action = None, target = None\<rparr>]
               \<and> postUrl (frame (fst (run env later (snd (pvp_handler env va matches))) ! j))
                 = base_url env @ ''/action'')"
proof -
  let ?m = "record_move (fid va) (buttonIndex va) (bind_opponent (fid va) m)"
  let ?s = "snd (pvp_handler env va matches)"
  have wf: "well_formed matches"
    unfolding reach using well_formed_empty by (rule run_well_formed)
  have ne: "matchId \<noteq> []" and old: "moveB m \<noteq> None \<longrightarrow> playerB m \<noteq> None"
    using wf m by (simp_all add: well_formed_def)
  have "moveB ?m \<noteq> None \<longrightarrow> playerB ?m \<noteq> None"
    using old by (rule pvp_update_keeps_opponent)
  then obtain b where b: "playerB ?m = Some b" using c by auto
  have b0: "b \<noteq> 0" using z b by simp
  have nw: "\<not> still_waiting ?m"
    using a c b b0 by (simp add: still_waiting_def falsy_num_def)
  have r: "pvp_handler env va matches = (send (result_frame env ?m), matches(matchId := None))"
    using nw pvp_handler_found [where matches = matches and env = env, OF q ne m]
    by (simp add: Let_def)
  have pa: "playerA ?m = playerA m"
    by (simp add: record_move_fields bind_opponent_fields)
  have t: "title (frame (fst (pvp_handler env va matches)))
           = (if decideWinner a c = 1 then ''Player '' @ show_int (playerA m) @ '' wins!''
              else if decideWinner a c = 2 then ''Player '' @ show_int b @ '' wins!''
              else ''Draw!'')"
    using result_frame_title [OF a c b, of env] pa r by (simp add: send_def)
  have st: "status (fst (pvp_handler env va matches)) = 200"
    and im: "image_url (frame (fst (pvp_handler env va matches)))
             = base_url env @ ''/images/result.png''"
    using r by (simp_all add: send_def result_frame_def publicUrl_def)
  have gone: "?s matchId = None" using r by simp
  note k = run_keeps_absent [where matches = ?s and k = matchId and cbs = later and env = env,
      OF gone later]
  have after: "snd (run env later ?s) matchId = None" using k by blast
  have nf: "\<forall>j < length later. \<forall>ext' va'.
              later ! j = (ext', Pvp, va') \<and> query_matchId va' = Some matchId
              \<longrightarrow> fst (run env later ?s) ! j = not_found env"
    using k by blast
  have scr: "\<forall>j < length later. \<forall>ext' va'.
             later ! j = (ext', Pvp, va') \<and> query_matchId va' = Some matchId
             \<longrightarrow> status (fst (run env later ?s) ! j) = 200
               \<and> title (frame (fst (run env later ?s) ! j)) = ''PvP Match Not Found''
               \<and> image_url (frame (fst (run env later ?s) ! j))
                 = base_url env @ ''/images/error.png''
               \<and> buttons (frame (fst (run env later ?s) ! j))
                 = [\<lparr>label = ''Home'', action = None, target = None\<rparr>]
               \<and> postUrl (frame (fst (run env later ?s) ! j)) = base_url env @ ''/action''"
  proof (intro allI impI)
    fix j ext' va'
    assume j: "j < length later"
      and e: "later ! j = (ext', Pvp, va') \<and> query_matchId va' = Some matchId"
    have "fst (run env later ?s) ! j = not_found env" using nf j e by blast
    then show "status (fst (run env later ?s) ! j) = 200
               \<and> title (frame (fst (run env later ?s) ! j)) = ''PvP Match Not Found''
               \<and> image_url (frame (fst (run env later ?s) ! j))
                 = base_url env @ ''/images/error.png''
               \<and> buttons (frame (fst (run env later ?s) ! j))
                 = [\<lparr>label = ''Home'', action = None, target = None\<rparr>]
               \<and> postUrl (frame (fst (run env later ?s) ! j)) = base_url env @ ''/action''"
      by (simp add: not_found_screen)
  qed
  have ex: "\<exists>b. playerB ?m = Some b
              \<and> title (frame (fst (pvp_handler env va matches)))
                = (if decideWinner a c = 1 then ''Player '' @ show_int (playerA m) @ '' wins!''
                   else if decideWinner a c = 2 then ''Player '' @ show_int b @ '' wins!''
                   else ''Draw!'')"
    using b t by blast
  have del: "?s = matches(matchId := None)" using r by simp
  show ?thesis
    using st ex im del after scr by (intro conjI)
qed

theorem resolved_match_stays_gone_witness:
  "snd (run example_env joined_history Map.empty) ''5-100''
     = Some \<lparr>id_str = ''5-100'', mode = mode_pvp, playerA = 100, playerB = Some 200,
             moveA = None, moveB = Some rock, createdAt = 5\<rparr>
   \<and> created_by (later_history ! 0) = Some (6, 100)
   \<and> title (frame (fst (pvp_handler example_env (tap 100 2 ''5-100'')
                          (snd (run example_env joined_history Map.empty)))))
     = ''Player 100 wins!''
   \<and> title (frame (fst (run example_env later_history
                          (snd (pvp_handler example_env (tap 100 2 ''5-100'')
                                  (snd (run example_env joined_history Map.empty))))) ! 1))
     = ''PvP Match Not Found''"
proof -
  let ?m = "\<lparr>id_str = ''5-100'', mode = mode_pvp, playerA = 100, playerB = Some 200,
             moveA = None, moveB = Some rock, createdAt = 5\<rparr>"
  let ?s = "snd (run example_env joined_history Map.empty)"
  let ?va = "tap 100 2 ''5-100''"
  have h1: "?s = snd (run example_env joined_history Map.empty)" by simp
  have h2: "query_matchId ?va = Some ''5-100''" by (rule query_matchId_tap)
  have h3: "?s ''5-100'' = Some ?m" by (simp add: joined_store)
  have h4: "moveA (record_move (fid ?va) (buttonIndex ?va) (bind_opponent (fid ?va) ?m))
            = Some paper"
    and h5: "moveB (record_move (fid ?va) (buttonIndex ?va) (bind_opponent (fid ?va) ?m))
            = Some rock"
    and h6: "playerB (record_move (fid ?va) (buttonIndex ?va) (bind_opponent (fid ?va) ?m))
            \<noteq> Some 0"
    by (simp_all add: tap_sel pvp_step_defs Let_def)
  have h0: "playerB ?m \<noteq> Some 0" by simp
  have c0: "created_by (later_history ! 0) = Some (6, 100)"
    by (simp add: later_history_def created_by_def example_ext_def)
  have h7: "\<forall>cb \<in> set later_history. \<forall>t f. created_by cb = Some (t, f)
              \<longrightarrow> new_matchId t f \<noteq> ''5-100''"
    by (simp add: later_history_def created_by_def example_ext_def new_matchId_6_100)
  note r = resolved_match_stays_gone [where matches = ?s and env = example_env
      and before = joined_history and va = ?va and matchId = "''5-100''" and m = ?m
      and a = paper and c = rock and later = later_history, OF h1 h2 h3 h4 h5 h0 h6 h7]
  have t: "title (frame (fst (pvp_handler example_env ?va ?s))) = ''Player 100 wins!''"
    using r by (auto simp: decideWinner_def show_int_100)
  have l1: "later_history ! 1 = (example_ext 200 1 6, Pvp, tap 200 1 ''5-100'')
            \<and> query_matchId (tap 200 1 ''5-100'') = Some ''5-100''"
    by (simp add: later_history_def query_matchId_tap)
  have len: "1 < length later_history" by (simp add: later_history_def)
  have nf: "title (frame (fst (run example_env later_history
                                 (snd (pvp_handler example_env ?va ?s))) ! 1))
            = ''PvP Match Not Found''"
    using r [THEN conjunct2, THEN conjunct2, THEN conjunct2, THEN conjunct2, THEN conjunct2,
        rule_format, OF len l1]
    by blast
  show ?thesis
    using h3 c0 t nf by (intro conjI)
qed

text \<open>
  C8, as the claim states it, fails: identity 100 creates a lobby at clock reading 5 and
  identity 200 joins it with rock; when identity 100 creates a lobby again and the clock
  reads 5 again, the new id is the one already stored and the joined record is replaced
  by a fresh one.
\<close>

theorem same_reading_same_identity_replaces:
  "snd (pvp_handler example_env (tap 200 1 ''5-100'') (lobby_of 100)) ''5-100''
     = Some ((new_match ''5-100'' 100 5)\<lparr>playerB := Some 200, moveB := Some rock\<rparr>)
   \<and> snd (action_handler example_env (example_ext 100 2 5)
            \<lparr>fid = 100, buttonIndex = 2, query = None\<rparr>
            (snd (pvp_handler example_env (tap 200 1 ''5-100'') (lobby_of 100)))) ''5-100''
     = Some (new_match ''5-100'' 100 5)"
  by (simp add: pvp_tap_found lobby_of_100 action_handler_def example_ext_def
      new_matchId_5_100 new_match_def pvp_step_defs Let_def)

text \<open>
  C8, amended: the id of a new lobby is the decimal clock reading, a minus sign and the
  decimal identity, and it determines both. Along every sequence of lobby-creation
  callbacks whose pairs of clock reading and identity are pairwise distinct, every created
  record is still stored under its own id at the end, and the records under all other ids
  are the ones the sequence found. A creation therefore replaces a stored record only when
  it repeats both the clock reading and the identity of that record's id.
\<close>

theorem lobbies_kept_apart:
  assumes "\<forall>x \<in> set xs. buttonIndex (snd x) = 2"
    and "distinct (map (\<lambda>x. (now_id (fst x), fid (snd x))) xs)"
  shows "(\<forall>x \<in> set xs. action_run env xs matches (lobby_key x)
            = Some (new_match (lobby_key x) (fid (snd x)) (now_created (fst x))))
       \<and> (\<forall>k. k \<notin> lobby_key ` set xs \<longrightarrow> action_run env xs matches k = matches k)
       \<and> (\<forall>t f t' f'. new_matchId t f = new_matchId t' f' \<longleftrightarrow> t = t' \<and> f = f')"
proof -
  have a: "\<forall>x \<in> set xs. action_run env xs matches (lobby_key x)
            = Some (new_match (lobby_key x) (fid (snd x)) (now_created (fst x)))"
    using assms
  proof (induction xs arbitrary: matches)
    case Nil
    then show ?case by simp
  next
    case (Cons x xs)
    obtain ext va where x: "x = (ext, va)" by (cases x)
    let ?s = "snd (action_handler env ext va matches)"
    have b2: "buttonIndex va = 2" using Cons.prems(1) x by simp
    have fresh: "lobby_key x \<notin> lobby_key ` set xs"
    proof
      assume "lobby_key x \<in> lobby_key ` set xs"
      then obtain y where y: "y \<in> set xs" and e: "lobby_key x = lobby_key y" by auto
      then have "(now_id (fst x), fid (snd x)) = (now_id (fst y), fid (snd y))"
        by (simp add: lobby_key_def new_matchId_inj)
      then show False using Cons.prems(2) y by force
    qed
    have hd: "action_run env (x # xs) matches (lobby_key x)
              = Some (new_match (lobby_key x) (fid (snd x)) (now_created (fst x)))"
      using action_run_other_key [OF fresh, of env ?s] action_creates [OF b2, of env ext matches] x
      by (simp add: lobby_key_def)
    have tl: "\<forall>y \<in> set xs. action_run env (x # xs) matches (lobby_key y)
              = Some (new_match (lobby_key y) (fid (snd y)) (now_created (fst y)))"
      using Cons.IH [of ?s] Cons.prems x by simp
    show ?case using hd tl by simp
  qed
  show ?thesis
    using a action_run_other_key new_matchId_inj by blast
qed


theorem lobbies_kept_apart_witness:
  "distinct (map (\<lambda>x. (now_id (fst x), fid (snd x)))
      [(example_ext 100 2 5, \<lparr>fid = 100, buttonIndex = 2, query = None\<rparr>),
       (example_ext 100 2 6, \<lparr>fid = 100, buttonIndex = 2, query = None\<rparr>)])
   \<and> action_run example_env
        [(example_ext 100 2 5, \<lparr>fid = 100, buttonIndex = 2, query = None\<rparr>),
         (example_ext 100 2 6, \<lparr>fid = 100, buttonIndex = 2, query = None\<rparr>)] Map.empty ''5-100''
       = Some (new_match ''5-100'' 100 5)
   \<and> action_run example_env
        [(example_ext 100 2 5, \<lparr>fid = 100, buttonIndex = 2, query = None\<rparr>),
         (example_ext 100 2 6, \<lparr>fid = 100, buttonIndex = 2, query = None\<rparr>)] Map.empty ''6-100''
       = Some (new_match ''6-100'' 100 6)"
proof -
  let ?xs = "[(example_ext 100 2 5, \<lparr>fid = 100, buttonIndex = 2, query = None\<rparr>),
              (example_ext 100 2 6, \<lparr>fid = 100, buttonIndex = 2, query = None\<rparr>)]"
  have h1: "\<forall>x \<in> set ?xs. buttonIndex (snd x) = 2" by simp
  have h2: "distinct (map (\<lambda>x. (now_id (fst x), fid (snd x))) ?xs)"
    by (simp add: example_ext_def)
  show ?thesis
    using h2 lobbies_kept_apart [where xs = ?xs and env = example_env
        and matches = Map.empty, OF h1 h2]
    by (simp add: lobby_key_def example_ext_def new_matchId_5_100 new_matchId_6_100)
qed

text \<open>
  C2: the opponent of a match is never the initiator, and it is set at most once. The
  handler tests the slot with \<^verbatim>\<open>!match.playerB\<close>, which is also true of a slot that holds
  the identity 0. Identity 1 creates a lobby, identity 0 taps on it and becomes the
  opponent; when identity 7 taps next, the slot is written a second time and holds 7.
\<close>

theorem opponent_zero_is_replaced:
  "map_option playerB (snd (pvp_handler example_env (tap 0 4 ''5-1'') (lobby_of 1)) ''5-1'')
     = Some (Some 0)
   \<and> map_option playerB
        (snd (pvp_handler example_env (tap 7 4 ''5-1'')
               (snd (pvp_handler example_env (tap 0 4 ''5-1'') (lobby_of 1)))) ''5-1'')
     = Some (Some 7)"
  by (simp add: pvp_tap_found lobby_of_1 new_match_def pvp_step_defs Let_def)

text \<open>
  C6: a match with an opponent and at most one move shows "Waiting for both moves". With
  the identity 0 as opponent the handler does otherwise: after identity 0 has joined the
  lobby of identity 1 with rock, the stored record has the opponent 0 and one move, and
  the screen sent is titled "Waiting for opponent".
\<close>

theorem opponent_zero_waiting_title:
  "snd (pvp_handler example_env (tap 0 1 ''5-1'') (lobby_of 1)) ''5-1''
     = Some ((new_match ''5-1'' 1 5)\<lparr>playerB := Some 0, moveB := Some rock\<rparr>)
   \<and> title (frame (fst (pvp_handler example_env (tap 0 1 ''5-1'') (lobby_of 1))))
     = ''Waiting for opponent''"
  by (simp add: pvp_tap_found lobby_of_1 new_match_def pvp_step_defs Let_def send_def
      waiting_frame_def)

text \<open>
  C10: a tap by a third identity leaves a match with a bound opponent unchanged. With the
  identity 0 as opponent the handler does otherwise: identity 7, neither the initiator 1
  nor the opponent 0, taps button 2 and the record then has the opponent 7 and the move
  paper in place of the rock that identity 0 had played.
\<close>

theorem third_identity_takes_over_zero:
  "snd (pvp_handler example_env (tap 7 2 ''5-1'')
          (snd (pvp_handler example_env (tap 0 1 ''5-1'') (lobby_of 1)))) ''5-1''
     = Some ((new_match ''5-1'' 1 5)\<lparr>playerB := Some 7, moveB := Some paper\<rparr>)"
  by (simp add: pvp_tap_found lobby_of_1 new_match_def pvp_step_defs Let_def)

end
